theory Spec2Isabelle
  imports Main
begin

section \<open>The verification-date updater (scripts/add\_verification\_dates.py)\<close>

text \<open>
  The script walks two fixed directories, parses every \<open>*.yml\<close> file with
  \<open>yaml.safe_load\<close>, sets \<open>verified_date\<close> on every mapping found in the record
  sequence, and writes the document back with \<open>yaml.dump\<close>.

  What the script does depends on three pieces of Python outside the source: the parser,
  the serializer, and the conversion of a record's name to text inside \<open>print\<close>. They
  are parameters of the model, collected in a record, and each of them can raise.

  A parsed document is a graph of Python objects. \<open>safe_load\<close> gives one dict for a YAML
  anchor and all its aliases, and the script changes dicts in place, so lists and dicts
  live in a heap and are referred to by address.

  Left out: the line printed per file and the closing line, whose text does not depend on
  any document (they fail only with the output stream), and failures of the file system
  itself when a file is opened.
\<close>

subsection \<open>Parsed documents\<close>

text \<open>
  Keys of a Python dict built by \<open>safe_load\<close> are hashable scalars. A dict keeps the
  insertion order of its keys, so its entries are an association list. The script looks
  up and assigns string keys only, and a string key equals no key of another type.

  Floats, timestamps, binary strings and sets, which \<open>safe_load\<close> can produce as well,
  have no constructor: none of them is a list or a dict.
\<close>

datatype ykey = KNull | KBool bool | KInt int | KStr string

type_synonym addr = nat

datatype val = VNull | VBool bool | VInt int | VStr string | VRef addr

datatype obj = OList "val list" | ODict "(ykey \<times> val) list"

text \<open>Every address holds an object, so a reference never dangles.\<close>

type_synonym heap = "addr \<Rightarrow> obj"

datatype error = YAMLError | UnicodeError | ValueError | AttributeError | TypeError

subsection \<open>Constants of the script\<close>

definition today :: string where
  "today = ''2025-12-16''"

text \<open>The date that the script's docstring mentions.\<close>

definition docstring_date :: string where
  "docstring_date = ''2025-12-17''"

definition data_dirs :: "string list" where
  "data_dirs = [''_data/programs'', ''_data/college-university'']"

record dump_options =
  default_flow_style :: bool
  allow_unicode :: bool
  sort_keys :: bool

text \<open>The keyword arguments of both \<open>yaml.dump\<close> calls.\<close>

definition dump_flags :: dump_options where
  "dump_flags = \<lparr>default_flow_style = False, allow_unicode = True, sort_keys = False\<rparr>"

subsection \<open>The Python the script calls\<close>

text \<open>
  \<^item> \<open>safe_load\<close>: reading a file as UTF-8 and parsing it, either an exception or the
    document, a heap and the value at its root.
  \<^item> \<open>dump\<close>: \<open>yaml.dump\<close> into a file just opened with mode \<open>w\<close>, which empties it: the
    text that reached the file, and the exception if the call raised (the text is then
    what was written before, often nothing).
  \<^item> \<open>print_name\<close>: the exception, if any, of \<open>print\<close> on the line that shows a record's
    name; it depends on the name (an integer too long to convert, a string that the
    stream cannot encode).
\<close>

record 'text library =
  safe_load :: "'text \<Rightarrow> error + heap \<times> val"
  dump :: "dump_options \<Rightarrow> heap \<Rightarrow> val \<Rightarrow> 'text \<times> error option"
  print_name :: "heap \<Rightarrow> val \<Rightarrow> error option"

subsection \<open>Python operations on parsed values\<close>

text \<open>\<open>not data\<close> holds of \<open>None\<close>, \<open>False\<close>, zero and every empty container.\<close>

fun truthy :: "heap \<Rightarrow> val \<Rightarrow> bool" where
  "truthy h VNull = False"
| "truthy h (VBool b) = b"
| "truthy h (VInt i) = (i \<noteq> 0)"
| "truthy h (VStr s) = (s \<noteq> [])"
| "truthy h (VRef a) = (case h a of OList xs \<Rightarrow> xs \<noteq> [] | ODict d \<Rightarrow> d \<noteq> [])"

fun isinstance_list :: "heap \<Rightarrow> val \<Rightarrow> bool" where
  "isinstance_list h (VRef a) = (case h a of OList xs \<Rightarrow> True | ODict d \<Rightarrow> False)"
| "isinstance_list h v = False"

fun isinstance_dict :: "heap \<Rightarrow> val \<Rightarrow> bool" where
  "isinstance_dict h (VRef a) = (case h a of OList xs \<Rightarrow> False | ODict d \<Rightarrow> True)"
| "isinstance_dict h v = False"

text \<open>\<open>d.get(k)\<close>: the value stored under \<open>k\<close>, if any.\<close>

fun dict_get :: "(ykey \<times> val) list \<Rightarrow> ykey \<Rightarrow> val option" where
  "dict_get [] k = None"
| "dict_get ((k', v) # d) k = (if k' = k then Some v else dict_get d k)"

text \<open>
  \<open>d[k] = v\<close>: an existing key keeps its position and gets the new value, a new key
  goes to the end.
\<close>

fun setitem :: "ykey \<Rightarrow> val \<Rightarrow> (ykey \<times> val) list \<Rightarrow> (ykey \<times> val) list" where
  "setitem k v [] = [(k, v)]"
| "setitem k v ((k', v') # d) =
     (if k' = k then (k', v) # d else (k', v') # setitem k v d)"

definition keys :: "(ykey \<times> val) list \<Rightarrow> ykey list" where
  "keys d = map fst d"

fun key_value :: "ykey \<Rightarrow> val" where
  "key_value KNull = VNull"
| "key_value (KBool b) = VBool b"
| "key_value (KInt i) = VInt i"
| "key_value (KStr s) = VStr s"

text \<open>
  What a \<open>for\<close> loop iterates over: the items of a list, the keys of a dict, the
  characters of a string; any other value raises \<open>TypeError\<close>.
\<close>

fun py_iter :: "heap \<Rightarrow> val \<Rightarrow> error + val list" where
  "py_iter h (VRef b) =
     (case h b of OList xs \<Rightarrow> Inr xs | ODict d \<Rightarrow> Inr (map key_value (keys d)))"
| "py_iter h (VStr s) = Inr (map (\<lambda>c. VStr [c]) s)"
| "py_iter h v = Inl TypeError"

subsection \<open>The loop over the records\<close>

text \<open>
  The values that \<open>for program in programs\<close> goes through. A list document is its own
  record sequence. Any other document is asked for \<open>.get('programs', [])\<close>, which only a
  dict has (\<open>AttributeError\<close> otherwise); without the key the loop runs over a new empty
  list. The loop changes dicts only, so the items it goes through are those the sequence
  had when the loop began.
\<close>

fun programs_items :: "heap \<Rightarrow> val \<Rightarrow> error + val list" where
  "programs_items h (VRef a) =
     (case h a of
        OList xs \<Rightarrow> Inr xs
      | ODict d \<Rightarrow>
          (case dict_get d (KStr ''programs'') of
             None \<Rightarrow> Inr []
           | Some programs \<Rightarrow> py_iter h programs))"
| "programs_items h v = Inl AttributeError"

text \<open>
  \<open>program['verified_date'] = today\<close>: the dict at that address changes, for everything
  that refers to it. The script makes the assignment on dicts only.
\<close>

fun date_obj :: "obj \<Rightarrow> obj" where
  "date_obj (ODict d) = ODict (setitem (KStr ''verified_date'') (VStr today) d)"
| "date_obj (OList xs) = OList xs"

fun set_verified_date :: "heap \<Rightarrow> val \<Rightarrow> heap" where
  "set_verified_date h (VRef c) = h(c := date_obj (h c))"
| "set_verified_date h v = h"

text \<open>\<open>program.get('name', 'Unknown')\<close>, on a value known to be a dict.\<close>

fun get_name :: "heap \<Rightarrow> val \<Rightarrow> val" where
  "get_name h (VRef c) =
     (case h c of
        ODict d \<Rightarrow> (case dict_get d (KStr ''name'') of None \<Rightarrow> VStr ''Unknown'' | Some v \<Rightarrow> v)
      | OList xs \<Rightarrow> VStr ''Unknown'')"
| "get_name h v = VStr ''Unknown''"

text \<open>
  The \<open>for program in programs\<close> loop: the heap, the running total and the exception, if
  one ended the loop. The \<open>print\<close> comes after the assignment and before the count, so a
  record whose name cannot be printed is dated in memory and not counted.
\<close>

fun process_programs ::
  "'text library \<Rightarrow> heap \<Rightarrow> val list \<Rightarrow> nat \<Rightarrow> heap \<times> nat \<times> error option" where
  "process_programs lib h [] tot = (h, tot, None)"
| "process_programs lib h (program # rest) tot =
     (if isinstance_dict h program
      then (case print_name lib (set_verified_date h program)
                   (get_name (set_verified_date h program) program) of
              Some e \<Rightarrow> (set_verified_date h program, tot, Some e)
            | None \<Rightarrow> process_programs lib (set_verified_date h program) rest (tot + 1))
      else process_programs lib h rest tot)"

text \<open>The part of the loop body between the emptiness check and the write.\<close>

definition update_document ::
  "'text library \<Rightarrow> heap \<Rightarrow> val \<Rightarrow> nat \<Rightarrow> heap \<times> nat \<times> error option" where
  "update_document lib h data tot =
     (case programs_items h data of
        Inl e \<Rightarrow> (h, tot, Some e)
      | Inr items \<Rightarrow> process_programs lib h items tot)"

subsection \<open>One file\<close>

text \<open>
  The body of the loop over the files, on the text read from the file: what was written
  over the file (\<open>None\<close> when the file was not opened for writing), the running total, and
  the exception if one ended the run. An exception of the parser or of the loop comes
  before the file is opened; an exception of \<open>yaml.dump\<close> comes after, when the old text
  is gone. Both branches of the final \<open>isinstance(data, list)\<close> test make the same call.
\<close>

definition update_file ::
  "'text library \<Rightarrow> 'text \<Rightarrow> nat \<Rightarrow> 'text option \<times> nat \<times> error option" where
  "update_file lib content tot =
     (case safe_load lib content of
        Inl e \<Rightarrow> (None, tot, Some e)
      | Inr (h, data) \<Rightarrow>
          if \<not> truthy h data then (None, tot, None)
          else (case update_document lib h data tot of
                  (h', t, Some e) \<Rightarrow> (None, t, Some e)
                | (h', t, None) \<Rightarrow>
                    (case (if isinstance_list h' data then dump lib dump_flags h' data
                           else dump lib dump_flags h' data) of
                       (written, r) \<Rightarrow> (Some written, t, r))))"

subsection \<open>The directories and the run\<close>

text \<open>
  A directory is the list of its \<open>*.yml\<close> files, in the order \<open>glob\<close> yields them, each
  with its text. The file system maps a path to its directory, \<open>None\<close> when there is none.
\<close>

type_synonym 'text directory = "(string \<times> 'text) list"

record 'text state =
  fsys :: "string \<Rightarrow> 'text directory option"
  total_programs :: nat

text \<open>\<open>None\<close> leaves the text of a file, \<open>Some\<close> replaces it.\<close>

fun after_write :: "'text \<Rightarrow> 'text option \<Rightarrow> 'text" where
  "after_write content None = content"
| "after_write content (Some written) = written"

text \<open>
  The loop over the files of one directory: the directory after the writes, the total,
  and the exception if one ended the loop. Files after the failing one are not reached.
\<close>

fun process_files ::
  "'text library \<Rightarrow> 'text directory \<Rightarrow> nat \<Rightarrow> 'text directory \<times> nat \<times> error option" where
  "process_files lib [] t = ([], t, None)"
| "process_files lib ((yaml_file, content) # rest) t =
     (case update_file lib content t of
        (w, t', Some e) \<Rightarrow> ((yaml_file, after_write content w) # rest, t', Some e)
      | (w, t', None) \<Rightarrow>
          (case process_files lib rest t' of
             (rest', t'', r) \<Rightarrow> ((yaml_file, after_write content w) # rest', t'', r)))"

text \<open>One round of the outer loop: a directory that does not exist is passed over.\<close>

definition visit_dir ::
  "'text library \<Rightarrow> string \<Rightarrow> 'text state \<Rightarrow> 'text state \<times> error option" where
  "visit_dir lib data_dir st =
     (case fsys st data_dir of
        None \<Rightarrow> (st, None)
      | Some files \<Rightarrow>
          (case process_files lib files (total_programs st) of
             (files', t, r) \<Rightarrow> (\<lparr>fsys = (fsys st)(data_dir \<mapsto> files'), total_programs = t\<rparr>, r)))"

fun process_dirs ::
  "'text library \<Rightarrow> string list \<Rightarrow> 'text state \<Rightarrow> 'text state \<times> error option" where
  "process_dirs lib [] st = (st, None)"
| "process_dirs lib (data_dir # rest) st =
     (case visit_dir lib data_dir st of
        (st', Some e) \<Rightarrow> (st', Some e)
      | (st', None) \<Rightarrow> process_dirs lib rest st')"

text \<open>
  The whole script: the file system it leaves and either the total of the closing
  \<open>Updated ... programs!\<close> line or the exception that ended the run.
\<close>

definition main ::
  "'text library \<Rightarrow> (string \<Rightarrow> 'text directory option)
     \<Rightarrow> (string \<Rightarrow> 'text directory option) \<times> (error + nat)" where
  "main lib fs =
     (case process_dirs lib data_dirs \<lparr>fsys = fs, total_programs = 0\<rparr> of
        (st, None) \<Rightarrow> (fsys st, Inr (total_programs st))
      | (st, Some e) \<Rightarrow> (fsys st, Inl e))"

subsection \<open>Observations used in the statements\<close>

text \<open>The heap that holds the listed objects at the addresses 0, 1, 2 and so on.\<close>

definition heap_of :: "obj list \<Rightarrow> heap" where
  "heap_of os a = (if a < length os then os ! a else OList [])"

text \<open>\<open>program.get('verified_date')\<close> on a record; a value that is no dict has no fields.\<close>

fun verified_date_of :: "heap \<Rightarrow> val \<Rightarrow> val option" where
  "verified_date_of h (VRef c) =
     (case h c of ODict d \<Rightarrow> dict_get d (KStr ''verified_date'') | OList xs \<Rightarrow> None)"
| "verified_date_of h v = None"

text \<open>The entries of a dict other than \<open>verified_date\<close>, in their order.\<close>

fun other_fields :: "obj \<Rightarrow> obj" where
  "other_fields (ODict d) = ODict (filter (\<lambda>p. fst p \<noteq> KStr ''verified_date'') d)"
| "other_fields (OList xs) = OList xs"

text \<open>The heap in which every object that the listed values refer to has been dated.\<close>

definition dated :: "heap \<Rightarrow> val list \<Rightarrow> heap" where
  "dated h items = (\<lambda>c. if VRef c \<in> set items then date_obj (h c) else h c)"

text \<open>
  A value as Python's \<open>==\<close> sees it: the tree it unfolds to, down to a given depth.
\<close>

datatype yaml =
    YNull
  | YBool bool
  | YInt int
  | YStr string
  | YSeq "yaml list"
  | YMap "(ykey \<times> yaml) list"
  | YDeeper

fun view :: "nat \<Rightarrow> heap \<Rightarrow> val \<Rightarrow> yaml" where
  "view n h VNull = YNull"
| "view n h (VBool b) = YBool b"
| "view n h (VInt i) = YInt i"
| "view n h (VStr s) = YStr s"
| "view 0 h (VRef a) = YDeeper"
| "view (Suc n) h (VRef a) =
     (case h a of
        OList xs \<Rightarrow> YSeq (map (view n h) xs)
      | ODict d \<Rightarrow> YMap (map (\<lambda>p. (fst p, view n h (snd p))) d))"


section \<open>Properties\<close>

subsection \<open>Dict assignment\<close>

lemma dict_get_setitem:
  "dict_get (setitem k v d) k' = (if k' = k then Some v else dict_get d k')"
  by (induction d) auto

lemma keys_setitem:
  "keys (setitem k v d) = (if k \<in> set (keys d) then keys d else keys d @ [k])"
  by (induction d) (force simp: keys_def)+

lemma setitem_twice:
  "setitem k v (setitem k w d) = setitem k v d"
  by (induction d) auto

lemma setitem_others:
  "filter (\<lambda>p. fst p \<noteq> k) (setitem k v d) = filter (\<lambda>p. fst p \<noteq> k) d"
  by (induction d) auto


subsection \<open>Dating an object\<close>

lemma date_obj_twice: "date_obj (date_obj ob) = date_obj ob"
  by (cases ob) (simp_all add: setitem_twice)

lemma date_obj_list: "date_obj ob = OList xs \<longleftrightarrow> ob = OList xs"
  by (cases ob) auto

lemma date_obj_dict: "(\<exists>d. date_obj ob = ODict d) \<longleftrightarrow> (\<exists>d. ob = ODict d)"
  by (cases ob) auto

lemma other_fields_date_obj: "other_fields (date_obj ob) = other_fields ob"
  by (cases ob) (simp_all add: setitem_others)

lemma set_verified_date_apply:
  "set_verified_date h x c = (if x = VRef c then date_obj (h c) else h c)"
  by (cases x) auto

lemma isinstance_dict_set_verified_date:
  "isinstance_dict (set_verified_date h p) x = isinstance_dict h x"
proof (cases x)
  case (VRef c)
  show ?thesis
    by (cases "h c") (simp_all add: VRef set_verified_date_apply)
qed simp_all


lemma dated_Nil: "dated h [] = h"
  by (simp add: dated_def)

lemma dated_Cons_dict:
  "dated (set_verified_date h x) xs = dated h (x # xs)"
  by (rule ext) (auto simp: dated_def set_verified_date_apply date_obj_twice)

lemma dated_Cons_other:
  assumes "\<not> isinstance_dict h x"
  shows "dated h (x # xs) = dated h xs"
proof (rule ext)
  fix c
  show "dated h (x # xs) c = dated h xs c"
  proof (cases "x = VRef c")
    case True
    with assms show ?thesis
      by (cases "h c") (simp_all add: dated_def)
  next
    case False
    then show ?thesis
      by (simp add: dated_def)
  qed
qed


lemma dated_no_ref: "\<forall>c. VRef c \<notin> set xs \<Longrightarrow> dated h xs = h"
  by (rule ext) (simp add: dated_def)


subsection \<open>The record loop\<close>

text \<open>
  However the loop ends, an object is either as it was or is a listed object that has
  been dated, and the total has grown by at most the number of dicts listed. When the
  loop ends without an exception, every listed dict is dated and counted.
\<close>

lemma process_programs_result:
  "process_programs lib h xs tot = (h', t, r) \<Longrightarrow>
     (\<forall>c. h' c = h c \<or> (VRef c \<in> set xs \<and> h' c = date_obj (h c)))
     \<and> tot \<le> t \<and> t \<le> tot + length (filter (isinstance_dict h) xs)
     \<and> (r = None \<longrightarrow> h' = dated h xs \<and> t = tot + length (filter (isinstance_dict h) xs))"
proof (induction xs arbitrary: h tot)
  case Nil
  then show ?case by (simp add: dated_Nil)
next
  case (Cons x xs)
  show ?case
  proof (cases "isinstance_dict h x")
    case False
    with Cons.prems have "process_programs lib h xs tot = (h', t, r)"
      by simp
    from Cons.IH [OF this] False show ?thesis
      by (auto simp: dated_Cons_other)
  next
    case True
    let ?h1 = "set_verified_date h x"
    have count: "filter (isinstance_dict ?h1) xs = filter (isinstance_dict h) xs"
      by (simp add: isinstance_dict_set_verified_date cong: filter_cong)
    show ?thesis
    proof (cases "print_name lib ?h1 (get_name ?h1 x)")
      case (Some e)
      with Cons.prems True have "h' = ?h1" "t = tot" "r = Some e"
        by simp_all
      with True show ?thesis
        by (auto simp: set_verified_date_apply)
    next
      case None
      with Cons.prems True have "process_programs lib ?h1 xs (tot + 1) = (h', t, r)"
        by simp
      from Cons.IH [OF this]
      have frame: "\<forall>c. h' c = ?h1 c \<or> (VRef c \<in> set xs \<and> h' c = date_obj (?h1 c))"
        and lo: "tot + 1 \<le> t"
        and hi: "t \<le> tot + 1 + length (filter (isinstance_dict ?h1) xs)"
        and fin: "r = None \<longrightarrow>
          h' = dated ?h1 xs \<and> t = tot + 1 + length (filter (isinstance_dict ?h1) xs)"
        by simp_all
      have "\<forall>c. h' c = h c \<or> (VRef c \<in> set (x # xs) \<and> h' c = date_obj (h c))"
      proof
        fix c
        from frame have "h' c = ?h1 c \<or> (VRef c \<in> set xs \<and> h' c = date_obj (?h1 c))"
          by blast
        then show "h' c = h c \<or> (VRef c \<in> set (x # xs) \<and> h' c = date_obj (h c))"
          by (auto simp: set_verified_date_apply date_obj_twice split: if_splits)
      qed
      with lo hi fin True count show ?thesis
        by (simp add: dated_Cons_dict)
    qed
  qed
qed

lemma process_programs_no_raise:
  "\<forall>h v. print_name lib h v = None \<Longrightarrow> snd (snd (process_programs lib h xs tot)) = None"
  by (induction xs arbitrary: h tot) simp_all

lemma process_programs_no_dict:
  "filter (isinstance_dict h) xs = [] \<Longrightarrow> process_programs lib h xs tot = (h, tot, None)"
  by (induction xs) (auto split: if_splits)

lemma update_document_list:
  "h a = OList xs \<Longrightarrow> update_document lib h (VRef a) tot = process_programs lib h xs tot"
  by (simp add: update_document_def)


subsection \<open>A sequence of mapping records\<close>




subsection \<open>A mapping document\<close>

text \<open>
  C2. For a document that is a mapping, the records come from the value under its
  \<open>programs\<close> key and from nowhere else. Without that key the loop has nothing to go
  through: no object changes and nothing is counted. With a list under that key the loop
  is the loop over exactly the items of that list: an object that is not one of these
  items, be it the document itself or what another top-level entry holds, stays as it is,
  at most the mappings among the items are counted, and when no exception ends the loop
  all of them are dated and counted. A string or a mapping under \<open>programs\<close> is walked
  too, but none of its items is a mapping, so nothing changes and nothing is counted.
\<close>

theorem mapping_records_from_programs:
  assumes "h a = ODict d"
  shows "(dict_get d (KStr ''programs'') = None \<longrightarrow>
            update_document lib h (VRef a) tot = (h, tot, None))
       \<and> (\<forall>b xs. dict_get d (KStr ''programs'') = Some (VRef b) \<and> h b = OList xs \<longrightarrow>
            update_document lib h (VRef a) tot = process_programs lib h xs tot
          \<and> (\<exists>h' t r. process_programs lib h xs tot = (h', t, r)
                \<and> (\<forall>c. VRef c \<notin> set xs \<longrightarrow> h' c = h c)
                \<and> t \<le> tot + length (filter (isinstance_dict h) xs)
                \<and> (r = None \<longrightarrow>
                     h' = dated h xs \<and> t = tot + length (filter (isinstance_dict h) xs))))
       \<and> (\<forall>s. dict_get d (KStr ''programs'') = Some (VStr s) \<longrightarrow>
            update_document lib h (VRef a) tot = (h, tot, None))
       \<and> (\<forall>b m. dict_get d (KStr ''programs'') = Some (VRef b) \<and> h b = ODict m \<longrightarrow>
            update_document lib h (VRef a) tot = (h, tot, None))"
proof (intro conjI allI impI)
  assume "dict_get d (KStr ''programs'') = None"
  then show "update_document lib h (VRef a) tot = (h, tot, None)"
    using assms by (simp add: update_document_def)
next
  fix b xs
  assume p: "dict_get d (KStr ''programs'') = Some (VRef b) \<and> h b = OList xs"
  then show "update_document lib h (VRef a) tot = process_programs lib h xs tot"
    using assms by (simp add: update_document_def)
  obtain h' t r where r: "process_programs lib h xs tot = (h', t, r)"
    by (cases "process_programs lib h xs tot") auto
  from process_programs_result [OF r]
  have "(\<forall>c. VRef c \<notin> set xs \<longrightarrow> h' c = h c)
      \<and> t \<le> tot + length (filter (isinstance_dict h) xs)
      \<and> (r = None \<longrightarrow> h' = dated h xs \<and> t = tot + length (filter (isinstance_dict h) xs))"
    by blast
  with r show "\<exists>h' t r. process_programs lib h xs tot = (h', t, r)
                \<and> (\<forall>c. VRef c \<notin> set xs \<longrightarrow> h' c = h c)
                \<and> t \<le> tot + length (filter (isinstance_dict h) xs)
                \<and> (r = None \<longrightarrow>
                     h' = dated h xs \<and> t = tot + length (filter (isinstance_dict h) xs))"
    by blast
next
  fix s
  assume "dict_get d (KStr ''programs'') = Some (VStr s)"
  moreover have "filter (isinstance_dict h) (map (\<lambda>c. VStr [c]) s) = []"
    by (induction s) simp_all
  ultimately show "update_document lib h (VRef a) tot = (h, tot, None)"
    using assms by (simp add: update_document_def process_programs_no_dict)
next
  fix b m
  assume "dict_get d (KStr ''programs'') = Some (VRef b) \<and> h b = ODict m"
  moreover have "filter (isinstance_dict h) (map key_value ks) = []" for ks
  proof (induction ks)
    case (Cons k ks)
    then show ?case by (cases k) simp_all
  qed simp
  ultimately show "update_document lib h (VRef a) tot = (h, tot, None)"
    using assms by (simp add: update_document_def process_programs_no_dict)
qed

theorem mapping_records_from_programs_witness:
  "heap_of [ODict [(KStr ''title'', VRef 1)], ODict [(KStr ''name'', VStr ''x'')]] 0
     = ODict [(KStr ''title'', VRef 1)]
   \<and> update_document \<lparr>safe_load = (\<lambda>s. Inl YAMLError), dump = (\<lambda>opts h v. (''dumped'', None)),
                       print_name = (\<lambda>h v. None)\<rparr>
        (heap_of [ODict [(KStr ''title'', VRef 1)], ODict [(KStr ''name'', VStr ''x'')]])
        (VRef 0) 5
       = (heap_of [ODict [(KStr ''title'', VRef 1)], ODict [(KStr ''name'', VStr ''x'')]],
          5, None)
   \<and> heap_of [ODict [(KStr ''title'', VRef 1), (KStr ''programs'', VRef 2)],
              ODict [(KStr ''name'', VStr ''x'')],
              OList [VInt 3, VRef 3],
              ODict []] 0
     = ODict [(KStr ''title'', VRef 1), (KStr ''programs'', VRef 2)]
   \<and> (\<exists>h' t r.
         update_document \<lparr>safe_load = (\<lambda>s. Inl YAMLError), dump = (\<lambda>opts h v. (''dumped'', None)),
                          print_name = (\<lambda>h v. None)\<rparr>
           (heap_of [ODict [(KStr ''title'', VRef 1), (KStr ''programs'', VRef 2)],
                     ODict [(KStr ''name'', VStr ''x'')],
                     OList [VInt 3, VRef 3],
                     ODict []]) (VRef 0) 5 = (h', t, r)
       \<and> t = 6 \<and> r = None
       \<and> h' 0 = ODict [(KStr ''title'', VRef 1), (KStr ''programs'', VRef 2)]
       \<and> h' 1 = ODict [(KStr ''name'', VStr ''x'')]
       \<and> h' 2 = OList [VInt 3, VRef 3]
       \<and> h' 3 = ODict [(KStr ''verified_date'', VStr today)])"
proof -
  let ?lib = "\<lparr>safe_load = (\<lambda>s. Inl YAMLError), dump = (\<lambda>opts h v. (''dumped'', None)),
               print_name = (\<lambda>h v. None)\<rparr> :: string library"
  let ?h1 = "heap_of [ODict [(KStr ''title'', VRef 1)], ODict [(KStr ''name'', VStr ''x'')]]"
  let ?h2 = "heap_of [ODict [(KStr ''title'', VRef 1), (KStr ''programs'', VRef 2)],
                      ODict [(KStr ''name'', VStr ''x'')],
                      OList [VInt 3, VRef 3],
                      ODict []]"
  have a1: "?h1 0 = ODict [(KStr ''title'', VRef 1)]"
    by (simp add: heap_of_def)
  have a2: "?h2 0 = ODict [(KStr ''title'', VRef 1), (KStr ''programs'', VRef 2)]"
    by (simp add: heap_of_def)
  have b2: "?h2 2 = OList [VInt 3, VRef 3]"
    by (simp add: heap_of_def)
  from mapping_records_from_programs [of ?h1 0 "[(KStr ''title'', VRef 1)]" ?lib 5] a1
  have first: "update_document ?lib ?h1 (VRef 0) 5 = (?h1, 5, None)"
    by simp
  from mapping_records_from_programs
    [of ?h2 0 "[(KStr ''title'', VRef 1), (KStr ''programs'', VRef 2)]" ?lib 5] a2 b2
  obtain h' t r where u: "update_document ?lib ?h2 (VRef 0) 5 = (h', t, r)"
    and p: "process_programs ?lib ?h2 [VInt 3, VRef 3] 5 = (h', t, r)"
    and frame: "\<forall>c. VRef c \<notin> set [VInt 3, VRef 3] \<longrightarrow> h' c = ?h2 c"
    and fin: "r = None \<longrightarrow> h' = dated ?h2 [VInt 3, VRef 3]
        \<and> t = 5 + length (filter (isinstance_dict ?h2) [VInt 3, VRef 3])"
    by auto
  from p have r: "r = None"
    by (simp add: heap_of_def split: if_splits)
  with fin have t: "t = 6" and h': "h' = dated ?h2 [VInt 3, VRef 3]"
    by (simp_all add: heap_of_def)
  from frame have "h' 0 = ?h2 0" "h' 1 = ?h2 1" "h' 2 = ?h2 2"
    by simp_all
  then have o: "h' 0 = ODict [(KStr ''title'', VRef 1), (KStr ''programs'', VRef 2)]"
    "h' 1 = ODict [(KStr ''name'', VStr ''x'')]" "h' 2 = OList [VInt 3, VRef 3]"
    by (simp_all add: heap_of_def)
  from h' have d: "h' 3 = ODict [(KStr ''verified_date'', VStr today)]"
    by (simp add: dated_def heap_of_def)
  from a1 first a2 u t r o d show ?thesis
    by blast
qed

subsection \<open>The date constant\<close>

lemma alpha_beta_run:
  assumes "\<forall>h v. print_name lib h v = None"
  shows "update_document lib
           (heap_of [OList [VRef 1, VRef 2],
                     ODict [(KStr ''name'', VStr ''Alpha'')],
                     ODict [(KStr ''name'', VStr ''Beta'')]]) (VRef 0) 0
         = (dated (heap_of [OList [VRef 1, VRef 2],
                            ODict [(KStr ''name'', VStr ''Alpha'')],
                            ODict [(KStr ''name'', VStr ''Beta'')]]) [VRef 1, VRef 2],
            2, None)"
proof -
  let ?h = "heap_of [OList [VRef 1, VRef 2],
                     ODict [(KStr ''name'', VStr ''Alpha'')],
                     ODict [(KStr ''name'', VStr ''Beta'')]]"
  have l: "?h 0 = OList [VRef 1, VRef 2]"
    by (simp add: heap_of_def)
  obtain h' t r where p: "process_programs lib ?h [VRef 1, VRef 2] 0 = (h', t, r)"
    by (cases "process_programs lib ?h [VRef 1, VRef 2] 0") auto
  with process_programs_no_raise [OF assms, of ?h "[VRef 1, VRef 2]" 0] have "r = None"
    by simp
  with process_programs_result [OF p] p l show ?thesis
    by (simp add: update_document_list heap_of_def)
qed

text \<open>
  C3. The date written into the records is the literal assigned to \<open>today\<close>,
  \<open>2025-12-16\<close>, which differs from the date of the docstring: every mapping that the
  assignment touches carries \<open>verified_date: 2025-12-16\<close> afterwards. On the worked
  example, a sequence of the two records \<open>name: Alpha\<close> and \<open>name: Beta\<close>, both records
  come out with \<open>verified_date: 2025-12-16\<close> after their name and both are counted, and
  a run over a file system holding that one file reports the total 2.
\<close>

theorem date_constant_example:
  "today = ''2025-12-16'' \<and> today \<noteq> docstring_date
   \<and> verified_date_of (set_verified_date (h(c := ODict d)) (VRef c)) (VRef c)
       = Some (VStr ''2025-12-16'')
   \<and> view 2
        (fst (update_document
                \<lparr>safe_load = (\<lambda>s. Inl YAMLError), dump = (\<lambda>opts h v. (''dumped'', None)),
                 print_name = (\<lambda>h v. None)\<rparr>
                (heap_of [OList [VRef 1, VRef 2],
                          ODict [(KStr ''name'', VStr ''Alpha'')],
                          ODict [(KStr ''name'', VStr ''Beta'')]]) (VRef 0) 0))
        (VRef 0)
       = YSeq [YMap [(KStr ''name'', YStr ''Alpha''),
                     (KStr ''verified_date'', YStr ''2025-12-16'')],
               YMap [(KStr ''name'', YStr ''Beta''),
                     (KStr ''verified_date'', YStr ''2025-12-16'')]]
   \<and> snd (update_document
            \<lparr>safe_load = (\<lambda>s. Inl YAMLError), dump = (\<lambda>opts h v. (''dumped'', None)),
             print_name = (\<lambda>h v. None)\<rparr>
            (heap_of [OList [VRef 1, VRef 2],
                      ODict [(KStr ''name'', VStr ''Alpha'')],
                      ODict [(KStr ''name'', VStr ''Beta'')]]) (VRef 0) 0)
       = (2, None)
   \<and> snd (main
            \<lparr>safe_load = Inr, dump = (\<lambda>opts h v. ((h, v), None)),
             print_name = (\<lambda>h v. None)\<rparr>
            (\<lambda>p. if p = ''_data/programs''
                 then Some [(''example.yml'',
                             (heap_of [OList [VRef 1, VRef 2],
                                       ODict [(KStr ''name'', VStr ''Alpha'')],
                                       ODict [(KStr ''name'', VStr ''Beta'')]], VRef 0))]
                 else None))
       = Inr 2"
proof -
  let ?h = "heap_of [OList [VRef 1, VRef 2],
                     ODict [(KStr ''name'', VStr ''Alpha'')],
                     ODict [(KStr ''name'', VStr ''Beta'')]]"
  have a: "today = ''2025-12-16''" and b: "today \<noteq> docstring_date"
    by (simp_all add: today_def docstring_date_def)
  have f: "verified_date_of (set_verified_date (h(c := ODict d)) (VRef c)) (VRef c)
       = Some (VStr ''2025-12-16'')"
    by (simp add: dict_get_setitem today_def)
  have v: "view 2 (dated ?h [VRef 1, VRef 2]) (VRef 0)
       = YSeq [YMap [(KStr ''name'', YStr ''Alpha''),
                     (KStr ''verified_date'', YStr ''2025-12-16'')],
               YMap [(KStr ''name'', YStr ''Beta''),
                     (KStr ''verified_date'', YStr ''2025-12-16'')]]"
    by (simp add: numeral_2_eq_2 dated_def heap_of_def today_def)
  have m: "snd (main
            \<lparr>safe_load = Inr, dump = (\<lambda>opts h v. ((h, v), None)),
             print_name = (\<lambda>h v. None)\<rparr>
            (\<lambda>p. if p = ''_data/programs'' then Some [(''example.yml'', (?h, VRef 0))]
                 else None))
       = Inr 2"
  proof -
    have "update_document
            \<lparr>safe_load = Inr, dump = (\<lambda>opts h v. ((h, v), None)),
             print_name = (\<lambda>h v. None)\<rparr> ?h (VRef 0) 0
          = (dated ?h [VRef 1, VRef 2], 2, None)"
      by (rule alpha_beta_run) simp
    moreover have "truthy ?h (VRef 0)"
      by (simp add: heap_of_def)
    ultimately show ?thesis
      by (simp add: main_def data_dirs_def visit_dir_def update_file_def)
  qed
  have u: "update_document
            \<lparr>safe_load = (\<lambda>s. Inl YAMLError), dump = (\<lambda>opts h v. (''dumped'', None)),
             print_name = (\<lambda>h v. None)\<rparr> ?h (VRef 0) 0
          = (dated ?h [VRef 1, VRef 2], 2, None)"
    by (rule alpha_beta_run) simp
  show ?thesis
    by (intro conjI) (rule a, rule b, rule f, simp only: u fst_conv v, simp only: u snd_conv,
      rule m)
qed

subsection \<open>Items that are no mappings\<close>

lemma process_programs_skip:
  "\<not> isinstance_dict h x \<Longrightarrow>
     process_programs lib h (xs @ x # ys) tot = process_programs lib h (xs @ ys) tot"
  by (induction xs arbitrary: h tot)
    (simp_all add: isinstance_dict_set_verified_date split: option.splits)

text \<open>
  C5, as amended. An item of the record sequence that is not a mapping is not touched
  and adds nothing to the total: the loop over the sequence does exactly what it does on
  the sequence without that item, so the item raises no error and the items after it are
  processed. The object that the item refers to, a list, stays as it is, and so does
  every object other than the mappings that are items of the sequence. What the item
  holds can change only where it holds such a mapping.
\<close>

theorem non_mapping_skipped:
  assumes "\<not> isinstance_dict h x"
  shows "process_programs lib h (xs @ x # ys) tot = process_programs lib h (xs @ ys) tot
       \<and> (\<forall>a. h a = OList (xs @ x # ys) \<longrightarrow>
            update_document lib h (VRef a) tot = process_programs lib h (xs @ ys) tot)
       \<and> (\<forall>a d b. h a = ODict d \<and> dict_get d (KStr ''programs'') = Some (VRef b)
              \<and> h b = OList (xs @ x # ys) \<longrightarrow>
            update_document lib h (VRef a) tot = process_programs lib h (xs @ ys) tot)
       \<and> (\<forall>h' t r. process_programs lib h (xs @ x # ys) tot = (h', t, r) \<longrightarrow>
            (\<forall>c. x = VRef c \<longrightarrow> h' c = h c)
          \<and> (\<forall>c. h' c = h c \<or> (VRef c \<in> set (xs @ ys) \<and> isinstance_dict h (VRef c))))"
proof (intro conjI allI impI)
  show s: "process_programs lib h (xs @ x # ys) tot = process_programs lib h (xs @ ys) tot"
    using assms by (rule process_programs_skip)
  fix a
  assume "h a = OList (xs @ x # ys)"
  then show "update_document lib h (VRef a) tot = process_programs lib h (xs @ ys) tot"
    by (simp add: update_document_def s)
next
  fix a d b
  assume "h a = ODict d \<and> dict_get d (KStr ''programs'') = Some (VRef b)
    \<and> h b = OList (xs @ x # ys)"
  then show "update_document lib h (VRef a) tot = process_programs lib h (xs @ ys) tot"
    using assms by (simp add: update_document_def process_programs_skip)
next
  fix h' t r
  assume "process_programs lib h (xs @ x # ys) tot = (h', t, r)"
  then have "process_programs lib h (xs @ ys) tot = (h', t, r)"
    using assms by (simp add: process_programs_skip)
  from process_programs_result [OF this]
  have frame: "\<forall>c. h' c = h c \<or> (VRef c \<in> set (xs @ ys) \<and> h' c = date_obj (h c))"
    by blast
  have rest: "h' c = h c \<or> (VRef c \<in> set (xs @ ys) \<and> isinstance_dict h (VRef c))" for c
  proof (cases "h c")
    case (OList zs)
    with frame have "h' c = h c \<or> h' c = date_obj (OList zs)"
      by metis
    with OList show ?thesis by simp
  next
    case (ODict e)
    with frame show ?thesis
      by (metis isinstance_dict.simps(1) obj.simps(6))
  qed
  {
    fix c
    assume "x = VRef c"
    with assms rest [of c] show "h' c = h c"
      by auto
  }
  fix c
  show "h' c = h c \<or> (VRef c \<in> set (xs @ ys) \<and> isinstance_dict h (VRef c))"
    by (rule rest)
qed

theorem non_mapping_skipped_witness:
  "\<not> isinstance_dict (heap_of [OList [VRef 1, VStr ''note'', VRef 2],
                               ODict [(KStr ''name'', VStr ''Alpha'')], ODict []])
       (VStr ''note'')
   \<and> process_programs \<lparr>safe_load = (\<lambda>s. Inl YAMLError), dump = (\<lambda>opts h v. (''dumped'', None)),
                         print_name = (\<lambda>h v. None)\<rparr>
        (heap_of [OList [VRef 1, VStr ''note'', VRef 2],
                  ODict [(KStr ''name'', VStr ''Alpha'')], ODict []])
        ([VRef 1] @ VStr ''note'' # [VRef 2]) 0
     = process_programs \<lparr>safe_load = (\<lambda>s. Inl YAMLError), dump = (\<lambda>opts h v. (''dumped'', None)),
                         print_name = (\<lambda>h v. None)\<rparr>
        (heap_of [OList [VRef 1, VStr ''note'', VRef 2],
                  ODict [(KStr ''name'', VStr ''Alpha'')], ODict []])
        ([VRef 1] @ [VRef 2]) 0
   \<and> snd (update_document \<lparr>safe_load = (\<lambda>s. Inl YAMLError),
                            dump = (\<lambda>opts h v. (''dumped'', None)),
                            print_name = (\<lambda>h v. None)\<rparr>
             (heap_of [OList [VRef 1, VStr ''note'', VRef 2],
                       ODict [(KStr ''name'', VStr ''Alpha'')], ODict []]) (VRef 0) 0)
     = (2, None)"
proof -
  let ?lib = "\<lparr>safe_load = (\<lambda>s. Inl YAMLError), dump = (\<lambda>opts h v. (''dumped'', None)),
               print_name = (\<lambda>h v. None)\<rparr> :: string library"
  let ?h = "heap_of [OList [VRef 1, VStr ''note'', VRef 2],
                     ODict [(KStr ''name'', VStr ''Alpha'')], ODict []]"
  have n: "\<not> isinstance_dict ?h (VStr ''note'')"
    by simp
  have l: "?h 0 = OList ([VRef 1] @ VStr ''note'' # [VRef 2])"
    by (simp add: heap_of_def)
  from non_mapping_skipped [OF n, of ?lib "[VRef 1]" "[VRef 2]" 0] l
  have s: "process_programs ?lib ?h ([VRef 1] @ VStr ''note'' # [VRef 2]) 0
             = process_programs ?lib ?h ([VRef 1] @ [VRef 2]) 0"
    and u: "update_document ?lib ?h (VRef 0) 0 = process_programs ?lib ?h ([VRef 1] @ [VRef 2]) 0"
    by blast+
  have "snd (process_programs ?lib ?h ([VRef 1] @ [VRef 2]) 0) = (2, None)"
    by (simp add: heap_of_def)
  then have c: "snd (update_document ?lib ?h (VRef 0) 0) = (2, None)"
    by (simp only: u)
  show ?thesis
    by (rule conjI [OF n conjI [OF s c]])
qed

text \<open>
  The claim as first stated, that such an item is left entirely unchanged, fails when the
  item holds a record of the sequence: in the document of the two items \<open>&r {name: x}\<close>
  and \<open>[*r]\<close> the second item is a list, no mapping, and after the run the mapping it
  holds carries the date.
\<close>

theorem aliased_item_changes:
  "\<not> isinstance_dict
       (heap_of [OList [VRef 1, VRef 2], ODict [(KStr ''name'', VStr ''x'')], OList [VRef 1]])
       (VRef 2)
   \<and> view 2
       (heap_of [OList [VRef 1, VRef 2], ODict [(KStr ''name'', VStr ''x'')], OList [VRef 1]])
       (VRef 2)
     = YSeq [YMap [(KStr ''name'', YStr ''x'')]]
   \<and> view 2
       (fst (update_document
               \<lparr>safe_load = (\<lambda>s. Inl YAMLError), dump = (\<lambda>opts h v. (''dumped'', None)),
                print_name = (\<lambda>h v. None)\<rparr>
               (heap_of [OList [VRef 1, VRef 2], ODict [(KStr ''name'', VStr ''x'')],
                         OList [VRef 1]]) (VRef 0) 0))
       (VRef 2)
     = YSeq [YMap [(KStr ''name'', YStr ''x''), (KStr ''verified_date'', YStr ''2025-12-16'')]]
   \<and> snd (update_document
             \<lparr>safe_load = (\<lambda>s. Inl YAMLError), dump = (\<lambda>opts h v. (''dumped'', None)),
              print_name = (\<lambda>h v. None)\<rparr>
             (heap_of [OList [VRef 1, VRef 2], ODict [(KStr ''name'', VStr ''x'')],
                       OList [VRef 1]]) (VRef 0) 0)
     = (1, None)"
  by (simp add: update_document_def heap_of_def numeral_2_eq_2 today_def)

subsection \<open>Empty documents and missing directories\<close>

text \<open>
  C6. A file whose text parses to an empty or absent document (any value that Python
  takes for false) is not written: the loop body does not open the file for writing,
  leaves the total and raises nothing, and the loop over the files keeps the file's text
  and goes on with the files after it.
\<close>

theorem empty_document_not_written:
  assumes "safe_load lib content = Inr (h, data)" and "\<not> truthy h data"
  shows "update_file lib content tot = (None, tot, None)
       \<and> process_files lib ((yaml_file, content) # rest) tot =
           (case process_files lib rest tot of
              (rest', t, r) \<Rightarrow> ((yaml_file, content) # rest', t, r))"
  using assms by (simp add: update_file_def)

theorem empty_document_not_written_witness:
  "safe_load \<lparr>safe_load = (\<lambda>s. if s = [] then Inr (heap_of [], VNull) else Inl YAMLError),
              dump = (\<lambda>opts h v. (''null'', None)),
              print_name = (\<lambda>h v. None)\<rparr> ([] :: string) = Inr (heap_of [], VNull)
   \<and> \<not> truthy (heap_of []) VNull
   \<and> update_file
        \<lparr>safe_load = (\<lambda>s. if s = [] then Inr (heap_of [], VNull) else Inl YAMLError),
         dump = (\<lambda>opts h v. (''null'', None)),
         print_name = (\<lambda>h v. None)\<rparr> ([] :: string) 4 = (None, 4, None)
   \<and> process_files
        \<lparr>safe_load = (\<lambda>s. if s = [] then Inr (heap_of [], VNull) else Inl YAMLError),
         dump = (\<lambda>opts h v. (''null'', None)),
         print_name = (\<lambda>h v. None)\<rparr> [(''empty.yml'', [])] 4
       = ([(''empty.yml'', [])], 4, None)"
  using empty_document_not_written
      [of "\<lparr>safe_load = (\<lambda>s. if s = [] then Inr (heap_of [], VNull) else Inl YAMLError),
            dump = (\<lambda>opts h v. (''null'', None)),
            print_name = (\<lambda>h v. None)\<rparr>" "[] :: string" "heap_of []" VNull
          4 "''empty.yml''" "[]"]
  by simp

text \<open>
  C7. A configured directory that does not exist raises nothing: its round of the outer
  loop leaves the file system and the total as they were, and the loop goes on with the
  directories after it.
\<close>

theorem missing_dir_skipped:
  assumes "fsys st data_dir = None"
  shows "visit_dir lib data_dir st = (st, None)
       \<and> process_dirs lib (data_dir # rest) st = process_dirs lib rest st"
  using assms by (simp add: visit_dir_def)

theorem missing_dir_skipped_witness:
  "fsys \<lparr>fsys = (\<lambda>p. None), total_programs = 0\<rparr> ''_data/programs'' = None
   \<and> visit_dir \<lparr>safe_load = Inr, dump = (\<lambda>opts h v. ((h, v), None)),
                 print_name = (\<lambda>h v. None)\<rparr>
        ''_data/programs'' \<lparr>fsys = (\<lambda>p. None), total_programs = 0\<rparr>
       = (\<lparr>fsys = (\<lambda>p. None), total_programs = 0\<rparr>, None)
   \<and> process_dirs \<lparr>safe_load = Inr, dump = (\<lambda>opts h v. ((h, v), None)),
                    print_name = (\<lambda>h v. None)\<rparr>
        data_dirs \<lparr>fsys = (\<lambda>p. None), total_programs = 0\<rparr>
       = (\<lparr>fsys = (\<lambda>p. None), total_programs = 0\<rparr>, None)
   \<and> main \<lparr>safe_load = Inr, dump = (\<lambda>opts h v. ((h, v), None)),
            print_name = (\<lambda>h v. None)\<rparr> (\<lambda>p. None) = ((\<lambda>p. None), Inr 0)"
  using missing_dir_skipped
      [of "\<lparr>fsys = (\<lambda>p. None), total_programs = 0\<rparr>" "''_data/programs''"
          "\<lparr>safe_load = Inr, dump = (\<lambda>opts h v. ((h, v), None)),
            print_name = (\<lambda>h v. None)\<rparr>" "[''_data/college-university'']"]
    missing_dir_skipped
      [of "\<lparr>fsys = (\<lambda>p. None), total_programs = 0\<rparr>" "''_data/college-university''"
          "\<lparr>safe_load = Inr, dump = (\<lambda>opts h v. ((h, v), None)),
            print_name = (\<lambda>h v. None)\<rparr>" "[]"]
  by (simp add: data_dirs_def main_def)

subsection \<open>What a run changes\<close>

lemma update_document_result:
  assumes "update_document lib h data tot = (h', t, r)"
  shows "(\<exists>e. programs_items h data = Inl e \<and> h' = h \<and> t = tot \<and> r = Some e)
       \<or> (\<exists>items. programs_items h data = Inr items
             \<and> process_programs lib h items tot = (h', t, r))"
  using assms by (cases "programs_items h data") (auto simp: update_document_def)

text \<open>
  C9, as amended. The run changes nothing but mappings that are items of the record
  sequence, and each of them by the assignment of \<open>verified_date\<close> only: every object
  is either as it was, or it is such a mapping and is what the assignment makes of it;
  every object keeps all its entries other than \<open>verified_date\<close>, with their values and
  in their order; every list keeps its items. So a field of a record or a top-level entry
  of a mapping document refers to what it referred to before, and what it holds changes
  only where it holds a mapping that is itself an item of the record sequence.
\<close>

theorem only_verified_date_changes:
  assumes "update_document lib h data tot = (h', t, r)"
  shows "(h' c = h c
          \<or> (\<exists>items. programs_items h data = Inr items \<and> VRef c \<in> set items)
            \<and> isinstance_dict h (VRef c) \<and> h' c = date_obj (h c))
       \<and> other_fields (h' c) = other_fields (h c)
       \<and> (\<forall>xs. h c = OList xs \<longrightarrow> h' c = OList xs)"
proof -
  from update_document_result [OF assms]
  have frame: "h' c = h c
      \<or> (\<exists>items. programs_items h data = Inr items \<and> VRef c \<in> set items)
        \<and> h' c = date_obj (h c)"
  proof (elim disjE exE conjE)
    fix items
    assume "programs_items h data = Inr items"
      and "process_programs lib h items tot = (h', t, r)"
    with process_programs_result [of lib h items tot h' t r] show ?thesis
      by blast
  qed simp
  show ?thesis
  proof (cases "h c")
    case (OList xs)
    with frame show ?thesis by auto
  next
    case (ODict d)
    with frame show ?thesis
      by (auto simp: setitem_others)
  qed
qed

theorem only_verified_date_changes_witness:
  "update_document \<lparr>safe_load = (\<lambda>s. Inl YAMLError), dump = (\<lambda>opts h v. (''dumped'', None)),
                     print_name = (\<lambda>h v. None)\<rparr>
      (heap_of [ODict [(KStr ''title'', VStr ''x''), (KStr ''programs'', VRef 1)],
                OList [VRef 2, VInt 1],
                ODict [(KStr ''verified_date'', VInt 7), (KStr ''name'', VStr ''Beta'')]])
      (VRef 0) 0
    = (dated (heap_of [ODict [(KStr ''title'', VStr ''x''), (KStr ''programs'', VRef 1)],
                       OList [VRef 2, VInt 1],
                       ODict [(KStr ''verified_date'', VInt 7),
                              (KStr ''name'', VStr ''Beta'')]]) [VRef 2, VInt 1],
       1, None)
   \<and> other_fields
        (dated (heap_of [ODict [(KStr ''title'', VStr ''x''), (KStr ''programs'', VRef 1)],
                         OList [VRef 2, VInt 1],
                         ODict [(KStr ''verified_date'', VInt 7),
                                (KStr ''name'', VStr ''Beta'')]]) [VRef 2, VInt 1] 2)
     = ODict [(KStr ''name'', VStr ''Beta'')]
   \<and> dated (heap_of [ODict [(KStr ''title'', VStr ''x''), (KStr ''programs'', VRef 1)],
                      OList [VRef 2, VInt 1],
                      ODict [(KStr ''verified_date'', VInt 7),
                             (KStr ''name'', VStr ''Beta'')]]) [VRef 2, VInt 1] 2
     = ODict [(KStr ''verified_date'', VStr today), (KStr ''name'', VStr ''Beta'')]
   \<and> dated (heap_of [ODict [(KStr ''title'', VStr ''x''), (KStr ''programs'', VRef 1)],
                      OList [VRef 2, VInt 1],
                      ODict [(KStr ''verified_date'', VInt 7),
                             (KStr ''name'', VStr ''Beta'')]]) [VRef 2, VInt 1] 0
     = ODict [(KStr ''title'', VStr ''x''), (KStr ''programs'', VRef 1)]"
proof -
  let ?lib = "\<lparr>safe_load = (\<lambda>s. Inl YAMLError), dump = (\<lambda>opts h v. (''dumped'', None)),
               print_name = (\<lambda>h v. None)\<rparr>"
  let ?h = "heap_of [ODict [(KStr ''title'', VStr ''x''), (KStr ''programs'', VRef 1)],
                     OList [VRef 2, VInt 1],
                     ODict [(KStr ''verified_date'', VInt 7), (KStr ''name'', VStr ''Beta'')]]"
  have p: "programs_items ?h (VRef 0) = Inr [VRef 2, VInt 1]"
    by (simp add: heap_of_def)
  obtain h' t r where q: "process_programs ?lib ?h [VRef 2, VInt 1] 0 = (h', t, r)"
    by (cases "process_programs ?lib ?h [VRef 2, VInt 1] 0") auto
  with process_programs_no_raise [of ?lib ?h "[VRef 2, VInt 1]" 0] have "r = None"
    by simp
  with process_programs_result [OF q] q p
  have u: "update_document ?lib ?h (VRef 0) 0 = (dated ?h [VRef 2, VInt 1], 1, None)"
    by (simp add: update_document_def heap_of_def)
  from only_verified_date_changes [OF u, of 2]
  have o: "other_fields (dated ?h [VRef 2, VInt 1] 2) = ODict [(KStr ''name'', VStr ''Beta'')]"
    by (simp add: heap_of_def)
  have d2: "dated ?h [VRef 2, VInt 1] 2
      = ODict [(KStr ''verified_date'', VStr today), (KStr ''name'', VStr ''Beta'')]"
    by (simp add: dated_def heap_of_def)
  have d0: "dated ?h [VRef 2, VInt 1] 0
      = ODict [(KStr ''title'', VStr ''x''), (KStr ''programs'', VRef 1)]"
    by (simp add: dated_def heap_of_def)
  show ?thesis
    by (rule conjI [OF u conjI [OF o conjI [OF d2 d0]]])
qed

text \<open>
  The claim as first stated, that in a mapping document every top-level entry other than
  the records keeps its prior value, fails on a document with an alias: in
  \<open>template: &t {name: x}\<close> followed by \<open>programs: [*t]\<close> the entry \<open>template\<close> holds the
  very mapping that \<open>programs\<close> lists, and after the run it reads
  \<open>{name: x, verified_date: 2025-12-16}\<close>.
\<close>

theorem aliased_entry_changes:
  "heap_of [ODict [(KStr ''template'', VRef 1), (KStr ''programs'', VRef 2)],
            ODict [(KStr ''name'', VStr ''x'')], OList [VRef 1]] 0
     = ODict [(KStr ''template'', VRef 1), (KStr ''programs'', VRef 2)]
   \<and> view 1
       (heap_of [ODict [(KStr ''template'', VRef 1), (KStr ''programs'', VRef 2)],
                 ODict [(KStr ''name'', VStr ''x'')], OList [VRef 1]])
       (VRef 1)
     = YMap [(KStr ''name'', YStr ''x'')]
   \<and> view 1
       (fst (update_document
               \<lparr>safe_load = (\<lambda>s. Inl YAMLError), dump = (\<lambda>opts h v. (''dumped'', None)),
                print_name = (\<lambda>h v. None)\<rparr>
               (heap_of [ODict [(KStr ''template'', VRef 1), (KStr ''programs'', VRef 2)],
                         ODict [(KStr ''name'', VStr ''x'')], OList [VRef 1]]) (VRef 0) 0))
       (VRef 1)
     = YMap [(KStr ''name'', YStr ''x''), (KStr ''verified_date'', YStr ''2025-12-16'')]
   \<and> snd (update_document
             \<lparr>safe_load = (\<lambda>s. Inl YAMLError), dump = (\<lambda>opts h v. (''dumped'', None)),
              print_name = (\<lambda>h v. None)\<rparr>
             (heap_of [ODict [(KStr ''template'', VRef 1), (KStr ''programs'', VRef 2)],
                       ODict [(KStr ''name'', VStr ''x'')], OList [VRef 1]]) (VRef 0) 0)
     = (1, None)"
  by (simp add: update_document_def heap_of_def today_def)

subsection \<open>The write-back\<close>





subsection \<open>A second run\<close>


lemma dated_single: "dated h [VRef c] = h(c := date_obj (h c))"
  by (rule ext) (simp add: dated_def)















end
